theory Spec2Isabelle
  imports Main
begin

section \<open>Data model\<close>

text \<open>
  The platform of \<^verbatim>\<open>src/index.ts\<close> bridges vehicles into lock and switch accessories.
  The remote operations are the closed enumeration \<^verbatim>\<open>Command\<close>.
\<close>

datatype Command = LOCK | UNLOCK | START | STOP

text \<open>
  Modelled from the spec: the status snapshot type \<^verbatim>\<open>VehicleInfo\<close> of
  \<^verbatim>\<open>models/vehicle-info\<close>, which is not among the sources. The platform reads two paths of
  it, \<^verbatim>\<open>lockStatus.value\<close>, which it compares with the string \<^verbatim>\<open>'LOCKED'\<close>, and
  \<^verbatim>\<open>remoteStartStatus.value\<close>, a number that may be absent. Numbers are modelled as integers.
\<close>

record VehicleInfo =
  lockStatus_value :: string
  remoteStartStatus_value :: "int option"

text \<open>
  Modelled from the spec: the vehicle handle \<^verbatim>\<open>Vehicle\<close> of \<^verbatim>\<open>fordpass.ts\<close>, which is not
  among the sources. It owns a name, a VIN and the cached snapshot \<^verbatim>\<open>info\<close>; a new handle has
  no snapshot. Its methods \<^verbatim>\<open>status()\<close> and \<^verbatim>\<open>issueCommand()\<close> talk to the cloud service:
  their results are parameters of the functions below. Following the data model of the
  spec, the cached snapshot is written only by the status-update pass, so \<^verbatim>\<open>status()\<close> is a
  fetch that returns a snapshot or nothing and leaves the handle as it is.
\<close>

record Vehicle =
  name :: string
  vin :: string
  info :: "VehicleInfo option"

text \<open>
  A characteristic value of the host is a number, a boolean or a string. The conditions of
  the source test such values for truthiness and for strict equality with the number 0.
\<close>

datatype CharacteristicValue = VNum int | VBool bool | VStr string

fun truthy :: "CharacteristicValue \<Rightarrow> bool" where
  "truthy (VNum n) = (n \<noteq> 0)"
| "truthy (VBool b) = b"
| "truthy (VStr s) = (s \<noteq> [])"

record AccessoryInformation =
  Manufacturer :: string
  Model :: string
  SerialNumber :: string

record LockMechanism =
  LockCurrentState :: CharacteristicValue
  LockTargetState :: CharacteristicValue

record Switch =
  On :: CharacteristicValue

text \<open>
  A platform accessory of the host: its display name, its UUID, the context the plugin
  stores in it, and the services it carries. A service that the accessory does not have is
  \<open>None\<close>, as \<^verbatim>\<open>getService\<close> answers \<^verbatim>\<open>undefined\<close>.
\<close>

record PlatformAccessory =
  displayName :: string
  UUID :: string
  context_name :: string
  context_vin :: string
  accessoryInformation :: "AccessoryInformation option"
  lockMechanism :: "LockMechanism option"
  switch :: "Switch option"

record VehicleConfig =
  vc_name :: string
  vc_vin :: string

record PlatformConfig =
  username :: "string option"
  password :: "string option"
  config_vehicles :: "VehicleConfig list option"

datatype LogLevel = INFO | DEBUG | ERROR

datatype ApiCall =
    On_DID_FINISH_LAUNCHING
  | RegisterPlatformAccessories "PlatformAccessory list"
  | UnregisterPlatformAccessories "PlatformAccessory list"

datatype Task = Reauthenticate | UpdateVehicles

text \<open>
  The state of a \<^verbatim>\<open>FordPassPlatform\<close>: its two arrays, its configuration, and what it has
  done to its surroundings so far: the lines it logged, the calls it made on the host API and
  the interval timers it started (task and period in milliseconds).
\<close>

record FordPassPlatform =
  accessories :: "PlatformAccessory list"
  vehicles :: "Vehicle list"
  config :: "PlatformConfig option"
  log :: "(LogLevel \<times> string) list"
  api_calls :: "ApiCall list"
  timers :: "(Task \<times> int) list"

datatype js_error = Error | TypeError

section \<open>Strings\<close>

text \<open>
  \<^verbatim>\<open>toUpperCase\<close> on the letters of a VIN: the ASCII letters a to z go to A to Z, every other
  character stays.
\<close>

definition char_toUpperCase :: "char \<Rightarrow> char" where
  "char_toUpperCase c =
     (let n = (of_char c :: nat) in if 97 \<le> n \<and> n \<le> 122 then char_of (n - 32) else c)"

definition toUpperCase :: "string \<Rightarrow> string" where
  "toUpperCase s = map char_toUpperCase s"



section \<open>Characteristic bindings\<close>

text \<open>
  \<^verbatim>\<open>configureAccessory\<close> creates one vehicle handle and two services for an accessory and
  attaches four listeners, all of them closures over the handle and the services. The
  record below is what a listener can reach: the display name, the handle, the two
  services, and the debug lines and remote commands it has produced.
\<close>

record Binding =
  accessory_displayName :: string
  vehicle :: Vehicle
  lockService :: LockMechanism
  switchService :: Switch
  debug_log :: "string list"
  commands :: "Command list"

datatype Characteristic =
    Characteristic_LockCurrentState
  | Characteristic_LockTargetState
  | Characteristic_On

datatype CharacteristicEventTypes = SET | GET

datatype Listener = LockTargetState_SET | LockTargetState_GET | On_SET | On_GET

text \<open>
  The listeners as the source attaches them (lines 68 to 126): the chain that starts with
  \<^verbatim>\<open>getCharacteristic(hap.Characteristic.LockTargetState)\<close> carries a SET and a GET listener,
  the chain on \<^verbatim>\<open>hap.Characteristic.On\<close> a SET and a GET listener, and
  \<^verbatim>\<open>LockCurrentState\<close> only receives a value.
\<close>

fun listeners :: "Characteristic \<Rightarrow> CharacteristicEventTypes \<Rightarrow> Listener option" where
  "listeners Characteristic_LockTargetState SET = Some LockTargetState_SET"
| "listeners Characteristic_LockTargetState GET = Some LockTargetState_GET"
| "listeners Characteristic_On SET = Some On_SET"
| "listeners Characteristic_On GET = Some On_GET"
| "listeners Characteristic_LockCurrentState _ = None"

text \<open>
  \<^verbatim>\<open>vehicle.issueCommand(c)\<close>: the command is sent, and its outcome (\<open>True\<close> when the remote
  command succeeded) comes from the surroundings. The listeners await the call and drop
  its result.
\<close>

definition issueCommand :: "(Command \<Rightarrow> bool) \<Rightarrow> Command \<Rightarrow> Binding \<Rightarrow> bool \<times> Binding" where
  "issueCommand outcome c b = (outcome c, b\<lparr>commands := commands b @ [c]\<rparr>)"

text \<open>
  \<^verbatim>\<open>updateCharacteristic\<close> of the host validates the value it is given before it stores it.
  The lock current state is a numeric characteristic with the values 0 to 3: a boolean
  counts as 1 or 0, a string as the integer that \<^verbatim>\<open>parseInt\<close> reads from it, and a value that
  is no number is replaced by the number the characteristic holds (0 when it holds none);
  the number is then brought into the range from 0 to 3. \<open>parseInt\<close> is the builtin with
  radix 10; it gives \<open>None\<close> where the builtin gives \<^verbatim>\<open>NaN\<close>. The listeners other than the
  lock's SET listener hand the host only the numbers 0 and 1 and booleans for the switch,
  which the host stores as they are.
\<close>

definition validateUserInput ::
  "(string \<Rightarrow> int option) \<Rightarrow> CharacteristicValue \<Rightarrow> CharacteristicValue \<Rightarrow> CharacteristicValue" where
  "validateUserInput parseInt held v =
     (let n = (case v of
                 VBool t \<Rightarrow> Some (if t then 1 else 0)
               | VStr s \<Rightarrow> parseInt s
               | VNum k \<Rightarrow> Some k);
          m = (case n of
                 Some k \<Rightarrow> k
               | None \<Rightarrow> (case held of VNum h \<Rightarrow> h | _ \<Rightarrow> 0))
      in VNum (if m < 0 then 0 else if 3 < m then 3 else m))"

text \<open>
  The SET listener of the lock target state (lines 71 to 80). The written value goes to
  \<^verbatim>\<open>updateCharacteristic\<close> as it is. The callback takes an optional error; \<^verbatim>\<open>callback()\<close> is
  \<open>None\<close>.
\<close>

definition lockTargetState_set ::
  "(Command \<Rightarrow> bool) \<Rightarrow> (string \<Rightarrow> int option) \<Rightarrow> CharacteristicValue \<Rightarrow> Binding \<Rightarrow>
   Binding \<times> js_error option" where
  "lockTargetState_set outcome parseInt v b =
     (let b1 = b\<lparr>debug_log := debug_log b @
                  [(if truthy v then ''Locking'' else ''Unlocking'') @ '' '' @ accessory_displayName b]\<rparr>;
          (r, b2) = (if v = VNum 0 then issueCommand outcome UNLOCK b1
                     else issueCommand outcome LOCK b1);
          b3 = b2\<lparr>lockService := (lockService b2)
                  \<lparr>LockCurrentState :=
                     validateUserInput parseInt (LockCurrentState (lockService b2)) v\<rparr>\<rparr>
      in (b3, None))"

text \<open>
  The GET listener attached to the lock target state (lines 81 to 97). \<open>status\<close> is the
  result of \<^verbatim>\<open>await vehicle.status()\<close>. The callback takes an error or a value.
\<close>

definition lockTargetState_get ::
  "VehicleInfo option \<Rightarrow> Binding \<Rightarrow> Binding \<times> (js_error + CharacteristicValue)" where
  "lockTargetState_get status b =
     (case status of
        None \<Rightarrow>
          (b\<lparr>debug_log := debug_log b @
                [''Cannot get information for '' @ accessory_displayName b @ '' lock'']\<rparr>,
           Inl Error)
      | Some s \<Rightarrow>
          (let lockNumber = (if lockStatus_value s = ''LOCKED'' then 1 else 0 :: int)
           in (b\<lparr>lockService := (lockService b)\<lparr>LockCurrentState := VNum lockNumber\<rparr>\<rparr>,
               Inr (VNum lockNumber))))"

text \<open>The SET listener of the switch (lines 102 to 110).\<close>

definition on_set ::
  "(Command \<Rightarrow> bool) \<Rightarrow> CharacteristicValue \<Rightarrow> Binding \<Rightarrow> Binding \<times> js_error option" where
  "on_set outcome v b =
     (let b1 = b\<lparr>debug_log := debug_log b @
                  [(if truthy v then ''Starting'' else ''Stopping'') @ '' '' @ accessory_displayName b]\<rparr>;
          (r, b2) = (if truthy v then issueCommand outcome START b1
                     else issueCommand outcome STOP b1)
      in (b2, None))"

text \<open>
  \<^verbatim>\<open>vehicle.info?.remoteStartStatus.value || 0\<close>: the remote start level of a snapshot that
  may be missing; a missing snapshot and a missing level both give 0.
\<close>

definition engineStatus :: "VehicleInfo option \<Rightarrow> int" where
  "engineStatus i =
     (case i of None \<Rightarrow> 0
      | Some s \<Rightarrow> (case remoteStartStatus_value s of None \<Rightarrow> 0 | Some n \<Rightarrow> n))"

text \<open>
  The GET listener of the switch (lines 111 to 126). After the guard on the fetched
  \<open>status\<close>, the level is read from \<^verbatim>\<open>vehicle.info\<close>, the snapshot cached in the handle.
\<close>

definition on_get ::
  "VehicleInfo option \<Rightarrow> Binding \<Rightarrow> Binding \<times> (js_error + CharacteristicValue)" where
  "on_get status b =
     (case status of
        None \<Rightarrow>
          (b\<lparr>debug_log := debug_log b @
                [''Cannot get information for '' @ accessory_displayName b @ '' engine'']\<rparr>,
           Inl Error)
      | Some s \<Rightarrow>
          (let started = (engineStatus (info (vehicle b)) > 0)
           in (b, Inr (VBool started))))"

text \<open>
  A read request of the host on a characteristic: the GET listener runs when the
  characteristic has one; a characteristic without a GET listener answers with the value it
  holds, and nothing of the plugin runs.
\<close>

definition stored_value :: "Characteristic \<Rightarrow> Binding \<Rightarrow> CharacteristicValue" where
  "stored_value c b =
     (case c of
        Characteristic_LockCurrentState \<Rightarrow> LockCurrentState (lockService b)
      | Characteristic_LockTargetState \<Rightarrow> LockTargetState (lockService b)
      | Characteristic_On \<Rightarrow> On (switchService b))"

definition handleGetRequest ::
  "Characteristic \<Rightarrow> VehicleInfo option \<Rightarrow> Binding \<Rightarrow> Binding \<times> (js_error + CharacteristicValue)" where
  "handleGetRequest c status b =
     (case listeners c GET of
        Some LockTargetState_GET \<Rightarrow> lockTargetState_get status b
      | Some On_GET \<Rightarrow> on_get status b
      | _ \<Rightarrow> (b, Inr (stored_value c b)))"

section \<open>The platform\<close>

text \<open>
  JavaScript's falsiness on an optional string: a missing string and the empty string are
  falsy. An array, also an empty one, is truthy, so the vehicles list is falsy only when it
  is missing.
\<close>

definition falsy_string :: "string option \<Rightarrow> bool" where
  "falsy_string s = (case s of None \<Rightarrow> True | Some t \<Rightarrow> t = [])"

text \<open>
  The constructor (lines 33 to 49). Without a configuration it returns at once; with a
  configuration that lacks a user name, a password or the vehicles it logs one error and
  returns; otherwise it registers \<^verbatim>\<open>didFinishLaunching\<close> for the host's launch event.
\<close>

definition constructor :: "PlatformConfig option \<Rightarrow> FordPassPlatform" where
  "constructor cfg =
     (let p = \<lparr>accessories = [], vehicles = [], config = cfg, log = [], api_calls = [],
               timers = []\<rparr>
      in case cfg of
           None \<Rightarrow> p
         | Some c \<Rightarrow>
             if falsy_string (username c) \<or> falsy_string (password c) \<or> config_vehicles c = None
             then p\<lparr>log := [(ERROR, ''Please add a userame, password, and vehicles to your config.json'')]\<rparr>
             else p\<lparr>api_calls := [On_DID_FINISH_LAUNCHING]\<rparr>)"

text \<open>
  Modelled from the spec: \<^verbatim>\<open>createService\<close> of \<^verbatim>\<open>FordpassAccessory\<close> (\<^verbatim>\<open>accessory.ts\<close>, which is
  not among the sources) hands out the lock and the switch service of the accessory. The
  source then sets every characteristic of the two services (lines 63 to 69 and 100), so
  after it the accessory has both services with the default values: lock current and
  target state 1, switch off.
\<close>

definition configure :: "PlatformAccessory \<Rightarrow> PlatformAccessory" where
  "configure a =
     a\<lparr>lockMechanism := Some \<lparr>LockCurrentState = VNum 1, LockTargetState = VNum 1\<rparr>,
       switch := Some \<lparr>On = VBool False\<rparr>\<rparr>"

text \<open>
  \<^verbatim>\<open>configureAccessory\<close> (lines 51 to 130): besides the services and the listeners of the
  previous section, it creates the vehicle handle from the accessory's context and
  pushes the handle and the accessory onto the two arrays.
\<close>

definition configureAccessory :: "PlatformAccessory \<Rightarrow> FordPassPlatform \<Rightarrow> FordPassPlatform" where
  "configureAccessory a st =
     st\<lparr>log := log st @ [(INFO, ''Configuring accessory '' @ displayName a)],
        vehicles := vehicles st @ [\<lparr>name = context_name a, vin = context_vin a, info = None\<rparr>],
        accessories := accessories st @ [configure a]\<rparr>"

text \<open>
  \<^verbatim>\<open>new Accessory(name, uuid)\<close> of the host: an accessory with an empty context and the
  accessory information service.
\<close>

definition new_Accessory :: "string \<Rightarrow> string \<Rightarrow> PlatformAccessory" where
  "new_Accessory n uuid =
     \<lparr>displayName = n, UUID = uuid, context_name = [], context_vin = [],
      accessoryInformation = Some \<lparr>Manufacturer = ''Default-Manufacturer'',
        Model = ''Default-Model'', SerialNumber = ''Default-SerialNumber''\<rparr>,
      lockMechanism = None, switch = None\<rparr>"

text \<open>
  The accessory that the first loop of \<^verbatim>\<open>addVehicles\<close> builds for an entry (lines 159 to
  168): a new accessory with the entry's name and the UUID, the name and the VIN in its
  context, and the accessory information filled in.
\<close>

definition vehicleAccessory :: "string \<Rightarrow> VehicleConfig \<Rightarrow> PlatformAccessory" where
  "vehicleAccessory uuid v =
     (new_Accessory (vc_name v) uuid)
       \<lparr>context_name := vc_name v, context_vin := vc_vin v,
        accessoryInformation := Some \<lparr>Manufacturer = ''Ford'', Model = vc_name v,
          SerialNumber = vc_vin v\<rparr>\<rparr>"

text \<open>
  The body of the first loop of \<^verbatim>\<open>addVehicles\<close> (lines 157 to 175), for one entry of the
  configuration. \<open>generate\<close> is \<^verbatim>\<open>hap.uuid.generate\<close> of the host. The entry is changed in
  place (its VIN is upper-cased), so the changed entry is returned with the state. The
  callback is \<^verbatim>\<open>async\<close> but awaits nothing, so it runs to its end when \<^verbatim>\<open>forEach\<close> calls it.
\<close>

definition addVehicle ::
  "(string \<Rightarrow> string) \<Rightarrow> VehicleConfig \<Rightarrow> FordPassPlatform \<Rightarrow> VehicleConfig \<times> FordPassPlatform" where
  "addVehicle generate v st =
     (let v' = v\<lparr>vc_vin := toUpperCase (vc_vin v)\<rparr>;
          uuid = generate (vc_vin v');
          accessory = vehicleAccessory uuid v'
      in if find (\<lambda>x. UUID x = uuid) (accessories st) = None
         then (v', (configureAccessory accessory
                      (st\<lparr>log := log st @ [(DEBUG, ''New vehicle found: '' @ vc_name v')]\<rparr>))
                   \<lparr>api_calls := api_calls st @ [RegisterPlatformAccessories [configure accessory]]\<rparr>)
         else (v', st))"

fun addVehicles_forEach ::
  "(string \<Rightarrow> string) \<Rightarrow> VehicleConfig list \<Rightarrow> FordPassPlatform \<Rightarrow>
   VehicleConfig list \<times> FordPassPlatform" where
  "addVehicles_forEach generate [] st = ([], st)"
| "addVehicles_forEach generate (v # vs) st =
     (let (v', st1) = addVehicle generate v st;
          (vs', st2) = addVehicles_forEach generate vs st1
      in (v' # vs', st2))"

text \<open>
  The body of the second loop (lines 180 to 187) at index \<open>k\<close>. \<^verbatim>\<open>forEach\<close> reads the length
  of the array once and then visits the indices below it that the array still has, so an
  index that a removal has cut off is passed over. The visited accessory is the object at
  index \<open>k\<close>, which is where \<^verbatim>\<open>indexOf\<close> finds it. \<^verbatim>\<open>splice(index, 1)\<close> removes it from the
  accessories; \<^verbatim>\<open>slice(index, 1)\<close> on the vehicles builds a new array and leaves the vehicles
  as they are.
\<close>

definition removeVehicle :: "VehicleConfig list \<Rightarrow> nat \<Rightarrow> FordPassPlatform \<Rightarrow> FordPassPlatform" where
  "removeVehicle vs k st =
     (if k < length (accessories st)
      then (let accessory = accessories st ! k
            in if find (\<lambda>x. vc_vin x = context_vin accessory) vs = None
               then st\<lparr>api_calls := api_calls st @ [UnregisterPlatformAccessories [accessory]],
                       accessories := take k (accessories st) @ drop (Suc k) (accessories st),
                       vehicles := vehicles st\<rparr>
               else st)
      else st)"

text \<open>
  \<^verbatim>\<open>addVehicles\<close> (lines 154 to 189). Reading the vehicles of a missing configuration is a
  \<^verbatim>\<open>TypeError\<close>.
\<close>

definition addVehicles :: "(string \<Rightarrow> string) \<Rightarrow> FordPassPlatform \<Rightarrow> js_error + FordPassPlatform" where
  "addVehicles generate st =
     (case config st of
        None \<Rightarrow> Inl TypeError
      | Some c \<Rightarrow>
          (case config_vehicles c of
             None \<Rightarrow> Inl TypeError
           | Some vs \<Rightarrow>
               (let (vs', st1) = addVehicles_forEach generate vs st;
                    st2 = st1\<lparr>config := Some (c\<lparr>config_vehicles := Some vs'\<rparr>)\<rparr>
                in Inr (foldl (\<lambda>s k. removeVehicle vs' k s) st2 [0..<length (accessories st2)]))))"

subsection \<open>The status-update pass\<close>

text \<open>The two projections of a cached snapshot that may be missing (lines 195 to 205).\<close>

definition lockNumber :: "VehicleInfo option \<Rightarrow> int" where
  "lockNumber i = (if map_option lockStatus_value i = Some ''LOCKED'' then 1 else 0)"

definition started :: "VehicleInfo option \<Rightarrow> bool" where
  "started i = (engineStatus i > 0)"

text \<open>
  Lines 209 to 214 on the accessory that was found: each service that exists gets its
  characteristics updated.
\<close>

definition updateCharacteristics :: "int \<Rightarrow> bool \<Rightarrow> PlatformAccessory \<Rightarrow> PlatformAccessory" where
  "updateCharacteristics n s a =
     a\<lparr>lockMechanism :=
         map_option (\<lambda>l. l\<lparr>LockCurrentState := VNum n, LockTargetState := VNum n\<rparr>) (lockMechanism a),
       switch := map_option (\<lambda>w. w\<lparr>On := VBool s\<rparr>) (switch a)\<rparr>"

text \<open>
  \<^verbatim>\<open>find\<close> answers the first element that satisfies the predicate, and the source changes
  that object in place: in the list, the first such element is replaced.
\<close>

fun update_found :: "('a \<Rightarrow> bool) \<Rightarrow> ('a \<Rightarrow> 'a) \<Rightarrow> 'a list \<Rightarrow> 'a list" where
  "update_found P f [] = []"
| "update_found P f (x # xs) = (if P x then f x # xs else x # update_found P f xs)"

text \<open>
  The body of the loop of \<^verbatim>\<open>updateVehicles\<close> (lines 193 to 214) for the handle at index \<open>i\<close>.
  \<open>status i\<close> is what \<^verbatim>\<open>await vehicle.status()\<close> gives for that handle in this pass.
\<close>

definition updateVehicle ::
  "(string \<Rightarrow> string) \<Rightarrow> (nat \<Rightarrow> VehicleInfo option) \<Rightarrow> nat \<Rightarrow> FordPassPlatform \<Rightarrow> FordPassPlatform" where
  "updateVehicle generate status i st =
     (if i < length (vehicles st)
      then (let v = (vehicles st ! i)\<lparr>info := status i\<rparr>;
                uuid = generate (vin v)
            in st\<lparr>vehicles := (vehicles st)[i := v],
                  log := log st @ [(DEBUG, ''Updating info for '' @ name v)],
                  accessories := update_found (\<lambda>x. UUID x = uuid)
                    (updateCharacteristics (lockNumber (info v)) (started (info v)))
                    (accessories st)\<rparr>)
      else st)"

text \<open>
  \<^verbatim>\<open>updateVehicles\<close> (lines 191 to 216). \<^verbatim>\<open>forEach\<close> starts the callback of every handle; each
  callback stops at its \<^verbatim>\<open>await\<close> and goes on, in one piece, when its fetch has come back.
  The fetches come back in an order the platform does not choose: \<open>order\<close> lists the indices
  of the handles in the order in which their callbacks go on.
\<close>

definition updateVehicles ::
  "(string \<Rightarrow> string) \<Rightarrow> (nat \<Rightarrow> VehicleInfo option) \<Rightarrow> nat list \<Rightarrow> FordPassPlatform \<Rightarrow>
   FordPassPlatform" where
  "updateVehicles generate status order st =
     foldl (\<lambda>s i. updateVehicle generate status i s) st order"

text \<open>
  What \<^verbatim>\<open>await this.updateVehicles()\<close> gives its caller. \<^verbatim>\<open>forEach\<close> drops the promises of
  the callbacks, and nothing else in the method can raise, so the promise of the method is
  fulfilled whatever the fetches give.
\<close>

definition updateVehicles_result ::
  "(string \<Rightarrow> string) \<Rightarrow> (nat \<Rightarrow> VehicleInfo option) \<Rightarrow> nat list \<Rightarrow> FordPassPlatform \<Rightarrow>
   js_error + FordPassPlatform" where
  "updateVehicles_result generate status order st = Inr (updateVehicles generate status order st)"

subsection \<open>Launch\<close>

text \<open>
  \<^verbatim>\<open>didFinishLaunching\<close> (lines 132 to 152). \<open>connected\<close> is the result of \<^verbatim>\<open>ford.auth()\<close>.
  The two \<^verbatim>\<open>setInterval\<close> calls start the session-refresh loop and the status-poll loop.
\<close>

definition didFinishLaunching ::
  "bool \<Rightarrow> (string \<Rightarrow> string) \<Rightarrow> (nat \<Rightarrow> VehicleInfo option) \<Rightarrow> nat list \<Rightarrow> FordPassPlatform \<Rightarrow>
   js_error + FordPassPlatform" where
  "didFinishLaunching connected generate status order st =
     (if connected
      then (case addVehicles generate (st\<lparr>timers := timers st @ [(Reauthenticate, 7080000)]\<rparr>) of
              Inl e \<Rightarrow> Inl e
            | Inr st1 \<Rightarrow>
                (case updateVehicles_result generate status order st1 of
                   Inl e \<Rightarrow> Inl e
                 | Inr st2 \<Rightarrow> Inr (st2\<lparr>timers := timers st2 @ [(UpdateVehicles, 60000)]\<rparr>)))
      else Inr st)"

text \<open>
  The host's launch event runs the listener that the constructor registered, if it
  registered one.
\<close>

definition emit_DID_FINISH_LAUNCHING ::
  "bool \<Rightarrow> (string \<Rightarrow> string) \<Rightarrow> (nat \<Rightarrow> VehicleInfo option) \<Rightarrow> nat list \<Rightarrow> FordPassPlatform \<Rightarrow>
   js_error + FordPassPlatform" where
  "emit_DID_FINISH_LAUNCHING connected generate status order st =
     (if On_DID_FINISH_LAUNCHING \<in> set (api_calls st)
      then didFinishLaunching connected generate status order st
      else Inr st)"

section \<open>Auxiliary notions and example inputs\<close>

text \<open>An entry of the configuration after the first loop of \<^verbatim>\<open>addVehicles\<close> has upper-cased its VIN.\<close>

definition upper_entry :: "VehicleConfig \<Rightarrow> VehicleConfig" where
  "upper_entry v = v\<lparr>vc_vin := toUpperCase (vc_vin v)\<rparr>"

text \<open>
  Among the handles whose callbacks go on in a pass, in the order \<open>order\<close>, the one with the
  same identifier as handle \<open>i\<close> that goes on last: its projection is the one that stays on
  the accessory they share. It is \<open>i\<close> itself when no other handle has the identifier.
\<close>

definition last_writer :: "(string \<Rightarrow> string) \<Rightarrow> FordPassPlatform \<Rightarrow> nat list \<Rightarrow> nat \<Rightarrow> nat" where
  "last_writer generate st order i =
     last (filter (\<lambda>k. generate (vin (vehicles st ! k)) = generate (vin (vehicles st ! i))) order)"

text \<open>Concrete inputs for the examples below.\<close>

definition example_generate :: "string \<Rightarrow> string" where
  "example_generate s = ''uuid-'' @ s"

definition command_fails :: "Command \<Rightarrow> bool" where
  "command_fails c = False"

definition command_succeeds :: "Command \<Rightarrow> bool" where
  "command_succeeds c = True"

definition example_binding :: Binding where
  "example_binding =
     \<lparr>accessory_displayName = ''Truck'',
      vehicle = \<lparr>name = ''Truck'', vin = ''1FTFW1EF'', info = None\<rparr>,
      lockService = \<lparr>LockCurrentState = VNum 1, LockTargetState = VNum 1\<rparr>,
      switchService = \<lparr>On = VBool False\<rparr>,
      debug_log = [], commands = []\<rparr>"

definition example_config :: PlatformConfig where
  "example_config =
     \<lparr>username = Some ''user'', password = Some ''secret'',
      config_vehicles = Some [\<lparr>vc_name = ''Truck'', vc_vin = ''1ftfw1ef''\<rparr>,
                              \<lparr>vc_name = ''Pickup'', vc_vin = ''1FTFW1EF''\<rparr>]\<rparr>"

definition example_status :: "nat \<Rightarrow> VehicleInfo option" where
  "example_status i =
     (if i = 0 then None
      else Some \<lparr>lockStatus_value = ''LOCKED'', remoteStartStatus_value = Some 3\<rparr>)"

definition example_fleet :: FordPassPlatform where
  "example_fleet =
     \<lparr>accessories =
        [(configure (vehicleAccessory ''uuid-1FTFW1EF'' \<lparr>vc_name = ''Truck'', vc_vin = ''1FTFW1EF''\<rparr>))
           \<lparr>switch := Some \<lparr>On = VBool True\<rparr>\<rparr>,
         configure (vehicleAccessory ''uuid-3FA6P0H7'' \<lparr>vc_name = ''Car'', vc_vin = ''3FA6P0H7''\<rparr>)],
      vehicles =
        [\<lparr>name = ''Truck'', vin = ''1FTFW1EF'',
          info = Some \<lparr>lockStatus_value = ''LOCKED'', remoteStartStatus_value = Some 2\<rparr>\<rparr>,
         \<lparr>name = ''Car'', vin = ''3FA6P0H7'', info = None\<rparr>],
      config = Some example_config, log = [], api_calls = [], timers = []\<rparr>"

definition example_stale :: FordPassPlatform where
  "example_stale =
     \<lparr>accessories =
        [configure (vehicleAccessory ''uuid-1FTFW1EF'' \<lparr>vc_name = ''Truck'', vc_vin = ''1FTFW1EF''\<rparr>)],
      vehicles = [\<lparr>name = ''Truck'', vin = ''1FTFW1EF'', info = None\<rparr>],
      config = Some (example_config\<lparr>config_vehicles := Some []\<rparr>),
      log = [], api_calls = [], timers = []\<rparr>"

section \<open>Strings: upper-casing\<close>

lemma char_toUpperCase_idem: "char_toUpperCase (char_toUpperCase c) = char_toUpperCase c"
proof (cases "97 \<le> (of_char c :: nat) \<and> (of_char c :: nat) \<le> 122")
  case True
  then have "(of_char c :: nat) - 32 < 256" by arith
  then have m: "((of_char c :: nat) - 32) mod 256 = of_char c - 32" by simp
  have u: "char_toUpperCase c = char_of ((of_char c :: nat) - 32)"
    using True by (simp add: char_toUpperCase_def Let_def)
  have "(of_char (char_of ((of_char c :: nat) - 32)) :: nat) = of_char c - 32"
    using m by simp
  then have "\<not> 97 \<le> (of_char (char_of ((of_char c :: nat) - 32)) :: nat)"
    using True by arith
  then have "char_toUpperCase (char_of ((of_char c :: nat) - 32)) = char_of ((of_char c :: nat) - 32)"
    unfolding char_toUpperCase_def Let_def by (simp only: if_False simp_thms)
  then show ?thesis using u by simp
next
  case False
  then have "char_toUpperCase c = c" by (auto simp add: char_toUpperCase_def Let_def)
  then show ?thesis by simp
qed

lemma toUpperCase_idem: "toUpperCase (toUpperCase s) = toUpperCase s"
  by (simp add: toUpperCase_def char_toUpperCase_idem)



section \<open>Reconciliation\<close>

lemma upper_entry_idem: "upper_entry (upper_entry v) = upper_entry v"
  by (simp add: upper_entry_def toUpperCase_idem)

lemma vc_vin_upper_entry: "vc_vin (upper_entry v) = toUpperCase (vc_vin v)"
  by (simp add: upper_entry_def)

lemma addVehicle_fst: "fst (addVehicle generate v st) = upper_entry v"
  by (simp add: addVehicle_def Let_def upper_entry_def)

lemma addVehicles_forEach_fst:
  "fst (addVehicles_forEach generate vs st) = map upper_entry vs"
  by (induction vs arbitrary: st) (simp_all add: addVehicle_fst split_beta Let_def)

text \<open>An entry that already has its accessory is passed over.\<close>

lemma addVehicle_present:
  "find (\<lambda>x. UUID x = generate (toUpperCase (vc_vin v))) (accessories st) \<noteq> None \<Longrightarrow>
   snd (addVehicle generate v st) = st"
  by (auto simp add: addVehicle_def Let_def)

lemma addVehicles_forEach_present:
  "(\<And>v. v \<in> set vs \<Longrightarrow>
      find (\<lambda>x. UUID x = generate (toUpperCase (vc_vin v))) (accessories st) \<noteq> None) \<Longrightarrow>
   snd (addVehicles_forEach generate vs st) = st"
proof (induction vs)
  case Nil
  then show ?case by simp
next
  case (Cons v vs)
  have "snd (addVehicle generate v st) = st"
    using Cons.prems by (simp add: addVehicle_present)
  moreover have "snd (addVehicles_forEach generate vs st) = st"
    using Cons by simp
  ultimately show ?case by (simp add: split_beta Let_def)
qed

text \<open>What one entry and what the first loop leave in the accessories.\<close>

lemma find_append_Some:
  "find P xs \<noteq> None \<Longrightarrow> find P (xs @ ys) \<noteq> None"
  by (induction xs) auto

lemma addVehicle_accessories:
  "accessories (snd (addVehicle generate v st)) =
     (if find (\<lambda>x. UUID x = generate (toUpperCase (vc_vin v))) (accessories st) = None
      then accessories st @
        [configure (vehicleAccessory (generate (toUpperCase (vc_vin v))) (upper_entry v))]
      else accessories st)"
  by (simp add: addVehicle_def Let_def configureAccessory_def upper_entry_def)

lemma UUID_configure_vehicleAccessory: "UUID (configure (vehicleAccessory u v)) = u"
  by (simp add: configure_def vehicleAccessory_def new_Accessory_def)

lemma context_vin_configure_vehicleAccessory:
  "context_vin (configure (vehicleAccessory u v)) = vc_vin v"
  by (simp add: configure_def vehicleAccessory_def new_Accessory_def)

lemma addVehicle_accessories_grow:
  "find P (accessories st) \<noteq> None \<Longrightarrow> find P (accessories (snd (addVehicle generate v st))) \<noteq> None"
  by (auto simp add: addVehicle_accessories find_None_iff)

lemma addVehicle_has_accessory:
  "find (\<lambda>x. UUID x = generate (toUpperCase (vc_vin v)))
     (accessories (snd (addVehicle generate v st))) \<noteq> None"
  by (auto simp add: addVehicle_accessories find_None_iff UUID_configure_vehicleAccessory)

lemma addVehicles_forEach_accessories_grow:
  "find P (accessories st) \<noteq> None \<Longrightarrow>
   find P (accessories (snd (addVehicles_forEach generate vs st))) \<noteq> None"
proof (induction vs arbitrary: st)
  case Nil
  then show ?case by simp
next
  case (Cons v vs)
  from Cons.prems have "find P (accessories (snd (addVehicle generate v st))) \<noteq> None"
    by (rule addVehicle_accessories_grow)
  then have "find P (accessories (snd (addVehicles_forEach generate vs (snd (addVehicle generate v st))))) \<noteq> None"
    by (rule Cons.IH)
  then show ?case by (simp add: split_beta Let_def)
qed

lemma addVehicles_forEach_has_accessory:
  "v \<in> set vs \<Longrightarrow>
   find (\<lambda>x. UUID x = generate (toUpperCase (vc_vin v)))
     (accessories (snd (addVehicles_forEach generate vs st))) \<noteq> None"
proof (induction vs arbitrary: st)
  case Nil
  then show ?case by simp
next
  case (Cons w vs)
  show ?case
  proof (cases "v = w")
    case True
    have "find (\<lambda>x. UUID x = generate (toUpperCase (vc_vin v)))
       (accessories (snd (addVehicle generate w st))) \<noteq> None"
      unfolding True by (rule addVehicle_has_accessory)
    then have "find (\<lambda>x. UUID x = generate (toUpperCase (vc_vin v)))
       (accessories (snd (addVehicles_forEach generate vs (snd (addVehicle generate w st))))) \<noteq> None"
      by (rule addVehicles_forEach_accessories_grow)
    then show ?thesis by (simp add: split_beta Let_def)
  next
    case False
    with Cons.prems have "v \<in> set vs" by simp
    then have "find (\<lambda>x. UUID x = generate (toUpperCase (vc_vin v)))
       (accessories (snd (addVehicles_forEach generate vs (snd (addVehicle generate w st))))) \<noteq> None"
      by (rule Cons.IH)
    then show ?thesis by (simp add: split_beta Let_def)
  qed
qed

text \<open>The VINs in the contexts of the accessories after the first loop.\<close>

lemma addVehicle_context_vin:
  "context_vin ` set (accessories (snd (addVehicle generate v st)))
     \<subseteq> context_vin ` set (accessories st) \<union> {toUpperCase (vc_vin v)}"
  unfolding addVehicle_accessories
  by (auto simp add: context_vin_configure_vehicleAccessory vc_vin_upper_entry)

lemma addVehicles_forEach_context_vin:
  "context_vin ` set (accessories (snd (addVehicles_forEach generate vs st)))
     \<subseteq> context_vin ` set (accessories st) \<union> toUpperCase ` vc_vin ` set vs"
proof (induction vs arbitrary: st)
  case Nil
  then show ?case by simp
next
  case (Cons v vs)
  have "context_vin ` set (accessories (snd (addVehicles_forEach generate vs (snd (addVehicle generate v st)))))
     \<subseteq> context_vin ` set (accessories (snd (addVehicle generate v st))) \<union> toUpperCase ` vc_vin ` set vs"
    by (rule Cons.IH)
  also have "\<dots> \<subseteq> (context_vin ` set (accessories st) \<union> {toUpperCase (vc_vin v)}) \<union> toUpperCase ` vc_vin ` set vs"
    using addVehicle_context_vin [of generate v st] by blast
  finally show ?case by (auto simp add: split_beta Let_def)
qed

text \<open>The second loop removes nothing when every accessory has its entry.\<close>

lemma removeVehicle_keep:
  assumes "\<And>a. a \<in> set (accessories st) \<Longrightarrow> find (\<lambda>x. vc_vin x = context_vin a) vs \<noteq> None"
  shows "removeVehicle vs k st = st"
proof (cases "k < length (accessories st)")
  case True
  then have "accessories st ! k \<in> set (accessories st)" by simp
  then have "find (\<lambda>x. vc_vin x = context_vin (accessories st ! k)) vs \<noteq> None"
    by (rule assms)
  then show ?thesis by (auto simp add: removeVehicle_def Let_def)
next
  case False
  then show ?thesis by (simp add: removeVehicle_def)
qed

lemma removeVehicle_loop_keep:
  "(\<And>a. a \<in> set (accessories st) \<Longrightarrow> find (\<lambda>x. vc_vin x = context_vin a) vs \<noteq> None) \<Longrightarrow>
   foldl (\<lambda>s k. removeVehicle vs k s) st ks = st"
  by (induction ks) (simp_all add: removeVehicle_keep)

text \<open>Two runs.\<close>

lemma addVehicles_first_run:
  assumes "config st = Some c" "config_vehicles c = Some vs" "accessories st = []"
  shows "addVehicles generate st =
           Inr ((snd (addVehicles_forEach generate vs st))
                 \<lparr>config := Some (c\<lparr>config_vehicles := Some (map upper_entry vs)\<rparr>)\<rparr>)"
proof -
  let ?st1 = "snd (addVehicles_forEach generate vs st)"
  let ?st2 = "?st1\<lparr>config := Some (c\<lparr>config_vehicles := Some (map upper_entry vs)\<rparr>)\<rparr>"
  have sub: "context_vin ` set (accessories ?st1) \<subseteq> toUpperCase ` vc_vin ` set vs"
    using addVehicles_forEach_context_vin [of generate vs st] assms(3) by simp
  have keep: "find (\<lambda>x. vc_vin x = context_vin a) (map upper_entry vs) \<noteq> None"
    if "a \<in> set (accessories ?st2)" for a
  proof -
    from that sub have "context_vin a \<in> toUpperCase ` vc_vin ` set vs" by auto
    then show ?thesis by (auto simp add: find_None_iff vc_vin_upper_entry)
  qed
  have "foldl (\<lambda>s k. removeVehicle (map upper_entry vs) k s) ?st2 [0..<length (accessories ?st2)] = ?st2"
    using keep by (rule removeVehicle_loop_keep)
  then show ?thesis
    using assms(1,2) addVehicles_forEach_fst [of generate vs st]
    by (simp add: addVehicles_def split_beta Let_def)
qed

lemma addVehicles_settled:
  assumes "config st = Some c" "config_vehicles c = Some vs"
    and has: "\<And>v. v \<in> set vs \<Longrightarrow>
      find (\<lambda>x. UUID x = generate (toUpperCase (vc_vin v))) (accessories st) \<noteq> None"
    and keep: "\<And>a. a \<in> set (accessories st) \<Longrightarrow>
      find (\<lambda>x. vc_vin x = context_vin a) (map upper_entry vs) \<noteq> None"
  shows "addVehicles generate st =
           Inr (st\<lparr>config := Some (c\<lparr>config_vehicles := Some (map upper_entry vs)\<rparr>)\<rparr>)"
proof -
  let ?st2 = "st\<lparr>config := Some (c\<lparr>config_vehicles := Some (map upper_entry vs)\<rparr>)\<rparr>"
  have s: "snd (addVehicles_forEach generate vs st) = st"
    using has by (rule addVehicles_forEach_present)
  have "foldl (\<lambda>s k. removeVehicle (map upper_entry vs) k s) ?st2 [0..<length (accessories ?st2)] = ?st2"
    by (rule removeVehicle_loop_keep) (simp add: keep)
  then show ?thesis
    using assms(1,2) addVehicles_forEach_fst [of generate vs st] s
    by (simp add: addVehicles_def split_beta Let_def)
qed

section \<open>The status-update pass\<close>

lemma find_update_found_same:
  "(\<And>x. P x \<Longrightarrow> P (f x)) \<Longrightarrow> find P (update_found P f xs) = map_option f (find P xs)"
  by (induction xs) simp_all

lemma find_update_found_other:
  "(\<And>x. P x \<Longrightarrow> \<not> Q x \<and> \<not> Q (f x)) \<Longrightarrow> find Q (update_found P f xs) = find Q xs"
  by (induction xs) auto

lemma UUID_updateCharacteristics: "UUID (updateCharacteristics n s a) = UUID a"
  by (simp add: updateCharacteristics_def)

lemma updateCharacteristics_twice:
  "updateCharacteristics n s (updateCharacteristics n' s' a) = updateCharacteristics n s a"
  by (simp add: updateCharacteristics_def option.map_comp comp_def)

text \<open>One handle.\<close>

lemma updateVehicle_vehicles:
  "vehicles (updateVehicle generate status i st) =
     (if i < length (vehicles st) then (vehicles st)[i := (vehicles st ! i)\<lparr>info := status i\<rparr>]
      else vehicles st)"
  by (simp add: updateVehicle_def Let_def)

lemma updateVehicle_vin:
  "map vin (vehicles (updateVehicle generate status i st)) = map vin (vehicles st)"
  by (simp add: updateVehicle_vehicles map_update list_update_same_conv)

lemma updateVehicle_find:
  "find (\<lambda>x. UUID x = u) (accessories (updateVehicle generate status i st)) =
     (if i < length (vehicles st) \<and> generate (vin (vehicles st ! i)) = u
      then map_option (updateCharacteristics (lockNumber (status i)) (started (status i)))
             (find (\<lambda>x. UUID x = u) (accessories st))
      else find (\<lambda>x. UUID x = u) (accessories st))"
proof (cases "i < length (vehicles st)")
  case False
  then show ?thesis by (simp add: updateVehicle_def)
next
  case True
  show ?thesis
  proof (cases "generate (vin (vehicles st ! i)) = u")
    case same: True
    have "find (\<lambda>x. UUID x = u)
        (update_found (\<lambda>x. UUID x = u) (updateCharacteristics (lockNumber (status i)) (started (status i)))
          (accessories st))
      = map_option (updateCharacteristics (lockNumber (status i)) (started (status i)))
          (find (\<lambda>x. UUID x = u) (accessories st))"
      by (rule find_update_found_same) (simp add: UUID_updateCharacteristics)
    then show ?thesis using True same by (simp add: updateVehicle_def Let_def)
  next
    case other: False
    have "find (\<lambda>x. UUID x = u)
        (update_found (\<lambda>x. UUID x = generate (vin (vehicles st ! i)))
          (updateCharacteristics (lockNumber (status i)) (started (status i))) (accessories st))
      = find (\<lambda>x. UUID x = u) (accessories st)"
      by (rule find_update_found_other) (use other in \<open>simp add: UUID_updateCharacteristics\<close>)
    then show ?thesis using True other by (simp add: updateVehicle_def Let_def)
  qed
qed

text \<open>The pass, for any order in which the callbacks go on.\<close>

lemma updateVehicles_snoc:
  "updateVehicles generate status (order @ [k]) st =
     updateVehicle generate status k (updateVehicles generate status order st)"
  by (simp add: updateVehicles_def)

lemma updateVehicles_vin:
  "map vin (vehicles (updateVehicles generate status order st)) = map vin (vehicles st)"
  by (induction order rule: rev_induct)
     (simp_all add: updateVehicles_snoc updateVehicle_vin, simp add: updateVehicles_def)

lemma updateVehicles_length:
  "length (vehicles (updateVehicles generate status order st)) = length (vehicles st)"
  using updateVehicles_vin [of generate status order st] by (metis length_map)

lemma updateVehicles_vin_nth:
  "i < length (vehicles st) \<Longrightarrow>
   vin (vehicles (updateVehicles generate status order st) ! i) = vin (vehicles st ! i)"
  using updateVehicles_vin [of generate status order st] updateVehicles_length [of generate status order st]
  by (metis nth_map)

lemma updateVehicles_info:
  "i < length (vehicles st) \<Longrightarrow>
   info (vehicles (updateVehicles generate status order st) ! i) =
     (if i \<in> set order then status i else info (vehicles st ! i))"
proof (induction order rule: rev_induct)
  case Nil
  then show ?case by (simp add: updateVehicles_def)
next
  case (snoc k order)
  let ?s = "updateVehicles generate status order st"
  have len: "length (vehicles ?s) = length (vehicles st)" by (rule updateVehicles_length)
  show ?case
    using snoc len
    by (simp add: updateVehicles_snoc updateVehicle_vehicles nth_list_update)
qed

lemma updateVehicles_find:
  assumes "set order \<subseteq> {..<length (vehicles st)}"
  shows "find (\<lambda>x. UUID x = u) (accessories (updateVehicles generate status order st)) =
     (case filter (\<lambda>k. generate (vin (vehicles st ! k)) = u) order of
        [] \<Rightarrow> find (\<lambda>x. UUID x = u) (accessories st)
      | k # ks \<Rightarrow> map_option (updateCharacteristics (lockNumber (status (last (k # ks))))
                                (started (status (last (k # ks)))))
                   (find (\<lambda>x. UUID x = u) (accessories st)))"
  using assms
proof (induction order rule: rev_induct)
  case Nil
  then show ?case by (simp add: updateVehicles_def)
next
  case (snoc k order)
  let ?s = "updateVehicles generate status order st"
  have k: "k < length (vehicles st)" using snoc.prems by simp
  have len: "length (vehicles ?s) = length (vehicles st)" by (rule updateVehicles_length)
  have v: "vin (vehicles ?s ! k) = vin (vehicles st ! k)" using k by (rule updateVehicles_vin_nth)
  have IH: "find (\<lambda>x. UUID x = u) (accessories ?s) =
     (case filter (\<lambda>k. generate (vin (vehicles st ! k)) = u) order of
        [] \<Rightarrow> find (\<lambda>x. UUID x = u) (accessories st)
      | k # ks \<Rightarrow> map_option (updateCharacteristics (lockNumber (status (last (k # ks))))
                                (started (status (last (k # ks)))))
                   (find (\<lambda>x. UUID x = u) (accessories st)))"
    using snoc by simp
  show ?case
  proof (cases "generate (vin (vehicles st ! k)) = u")
    case True
    then show ?thesis
      using k len v IH
      by (simp add: updateVehicles_snoc updateVehicle_find option.map_comp comp_def
          updateCharacteristics_twice split: list.splits)
  next
    case False
    then show ?thesis
      using k len v IH
      by (simp add: updateVehicles_snoc updateVehicle_find)
  qed
qed

lemma updateVehicles_find_last:
  assumes "set order \<subseteq> {..<length (vehicles st)}" and "i \<in> set order"
  shows "find (\<lambda>x. UUID x = generate (vin (vehicles st ! i)))
           (accessories (updateVehicles generate status order st)) =
         map_option (updateCharacteristics (lockNumber (status (last_writer generate st order i)))
                       (started (status (last_writer generate st order i))))
           (find (\<lambda>x. UUID x = generate (vin (vehicles st ! i))) (accessories st))"
proof -
  let ?P = "\<lambda>k. generate (vin (vehicles st ! k)) = generate (vin (vehicles st ! i))"
  have "i \<in> set (filter ?P order)" using assms(2) by simp
  then obtain k ks where f: "filter ?P order = k # ks" by (cases "filter ?P order") auto
  show ?thesis
    using updateVehicles_find [OF assms(1), where u = "generate (vin (vehicles st ! i))"
        and generate = generate and status = status]
    by (simp add: f last_writer_def)
qed

lemma last_writer_in_order:
  assumes "i \<in> set order"
  shows "last_writer generate st order i \<in> set order"
proof -
  let ?P = "\<lambda>k. generate (vin (vehicles st ! k)) = generate (vin (vehicles st ! i))"
  have "filter ?P order \<noteq> []" using assms by (auto simp add: filter_empty_conv)
  then have "last (filter ?P order) \<in> set (filter ?P order)" by (rule last_in_set)
  then show ?thesis by (simp add: last_writer_def)
qed

lemma last_writer_unique:
  assumes "i \<in> set order"
    and "\<And>k. k \<in> set order \<Longrightarrow>
           generate (vin (vehicles st ! k)) = generate (vin (vehicles st ! i)) \<Longrightarrow> k = i"
  shows "last_writer generate st order i = i"
proof -
  let ?P = "\<lambda>k. generate (vin (vehicles st ! k)) = generate (vin (vehicles st ! i))"
  have "filter ?P order \<noteq> []" using assms(1) by (auto simp add: filter_empty_conv)
  then have "last (filter ?P order) \<in> set (filter ?P order)" by (rule last_in_set)
  then show ?thesis using assms(2) by (simp add: last_writer_def)
qed

section \<open>The claims\<close>

subsection \<open>Reconciliation\<close>

text \<open>
  Claim C5. Reconciliation is idempotent: for every desired list \<open>D\<close>, a run from an empty
  registered set succeeds, and a second run with the unchanged desired list adds nothing
  and removes nothing. The second run leaves the whole state as it is, so it makes no call
  on the host and changes neither array. This holds for the list as the first run left it
  in the configuration (the VINs upper-cased in place), and for the list as it was (the
  configuration read again).
\<close>

theorem reconciliation_idempotent:
  assumes "accessories st = []" "config st = Some c" "config_vehicles c = Some D"
  shows "\<exists>st1. addVehicles generate st = Inr st1
           \<and> addVehicles generate st1 = Inr st1
           \<and> addVehicles generate (st1\<lparr>config := Some c\<rparr>) = Inr st1"
proof -
  let ?f = "snd (addVehicles_forEach generate D st)"
  let ?c1 = "c\<lparr>config_vehicles := Some (map upper_entry D)\<rparr>"
  let ?st1 = "?f\<lparr>config := Some ?c1\<rparr>"
  have first: "addVehicles generate st = Inr ?st1"
    using assms(2,3,1) by (rule addVehicles_first_run)
  have sub: "context_vin ` set (accessories ?f) \<subseteq> toUpperCase ` vc_vin ` set D"
    using addVehicles_forEach_context_vin [of generate D st] assms(1) by simp
  have keep: "find (\<lambda>x. vc_vin x = context_vin a) (map upper_entry D) \<noteq> None"
    if "a \<in> set (accessories ?f)" for a
  proof -
    from that sub have "context_vin a \<in> toUpperCase ` vc_vin ` set D" by auto
    then show ?thesis by (auto simp add: find_None_iff vc_vin_upper_entry)
  qed
  have has: "find (\<lambda>x. UUID x = generate (toUpperCase (vc_vin v))) (accessories ?f) \<noteq> None"
    if "v \<in> set D" for v
    using that by (rule addVehicles_forEach_has_accessory)
  have idem: "map upper_entry (map upper_entry D) = map upper_entry D"
    by (simp add: upper_entry_idem)
  have "addVehicles generate ?st1 =
          Inr (?st1\<lparr>config := Some (?c1\<lparr>config_vehicles := Some (map upper_entry (map upper_entry D))\<rparr>)\<rparr>)"
  proof (rule addVehicles_settled)
    show "config ?st1 = Some ?c1" by simp
    show "config_vehicles ?c1 = Some (map upper_entry D)" by simp
  next
    fix v assume "v \<in> set (map upper_entry D)"
    then obtain w where w: "w \<in> set D" "v = upper_entry w" by auto
    have "toUpperCase (vc_vin v) = toUpperCase (vc_vin w)"
      by (simp add: w(2) vc_vin_upper_entry toUpperCase_idem)
    then show "find (\<lambda>x. UUID x = generate (toUpperCase (vc_vin v))) (accessories ?st1) \<noteq> None"
      using has [OF w(1)] by simp
  next
    fix a assume "a \<in> set (accessories ?st1)"
    then have "a \<in> set (accessories ?f)" by simp
    then show "find (\<lambda>x. vc_vin x = context_vin a) (map upper_entry (map upper_entry D)) \<noteq> None"
      unfolding idem by (rule keep)
  qed
  then have second: "addVehicles generate ?st1 = Inr ?st1"
    unfolding idem by simp
  have "addVehicles generate (?st1\<lparr>config := Some c\<rparr>) =
          Inr (?st1\<lparr>config := Some c\<rparr>\<lparr>config := Some (c\<lparr>config_vehicles := Some (map upper_entry D)\<rparr>)\<rparr>)"
  proof (rule addVehicles_settled)
    show "config (?st1\<lparr>config := Some c\<rparr>) = Some c" by simp
    show "config_vehicles c = Some D" by (rule assms(3))
  next
    fix v assume "v \<in> set D"
    then show "find (\<lambda>x. UUID x = generate (toUpperCase (vc_vin v)))
        (accessories (?st1\<lparr>config := Some c\<rparr>)) \<noteq> None"
      using has by simp
  next
    fix a assume "a \<in> set (accessories (?st1\<lparr>config := Some c\<rparr>))"
    then have "a \<in> set (accessories ?f)" by simp
    then show "find (\<lambda>x. vc_vin x = context_vin a) (map upper_entry D) \<noteq> None"
      by (rule keep)
  qed
  then have third: "addVehicles generate (?st1\<lparr>config := Some c\<rparr>) = Inr ?st1"
    by simp
  from first second third show ?thesis by blast
qed


theorem reconciliation_idempotent_witness:
  "accessories (constructor (Some example_config)) = []
   \<and> config (constructor (Some example_config)) = Some example_config
   \<and> config_vehicles example_config = Some [\<lparr>vc_name = ''Truck'', vc_vin = ''1ftfw1ef''\<rparr>,
                              \<lparr>vc_name = ''Pickup'', vc_vin = ''1FTFW1EF''\<rparr>]
   \<and> (\<exists>st1. addVehicles example_generate (constructor (Some example_config)) = Inr st1
           \<and> addVehicles example_generate st1 = Inr st1
           \<and> addVehicles example_generate (st1\<lparr>config := Some example_config\<rparr>) = Inr st1)"
proof -
  have h1: "accessories (constructor (Some example_config)) = []"
    by (simp add: constructor_def example_config_def falsy_string_def)
  have h2: "config (constructor (Some example_config)) = Some example_config"
    by (simp add: constructor_def example_config_def falsy_string_def)
  have h3: "config_vehicles example_config = Some [\<lparr>vc_name = ''Truck'', vc_vin = ''1ftfw1ef''\<rparr>,
                              \<lparr>vc_name = ''Pickup'', vc_vin = ''1FTFW1EF''\<rparr>]"
    by (simp add: example_config_def)
  show ?thesis using h1 h2 h3 reconciliation_idempotent [OF h1 h2 h3, of example_generate] by simp
qed






text \<open>
  Claim C2 fails on the code. With one registered accessory and its handle, and a desired
  list that no longer has the vehicle, the run unregisters the accessory and removes it
  from the accessories, and the handle is still among the vehicles: the two arrays have
  different lengths afterwards.
\<close>

theorem removal_leaves_vehicle_handle:
  "map_sum id accessories (addVehicles example_generate example_stale) = Inr []
   \<and> map_sum id vehicles (addVehicles example_generate example_stale)
       = Inr [\<lparr>name = ''Truck'', vin = ''1FTFW1EF'', info = None\<rparr>]
   \<and> map_sum id api_calls (addVehicles example_generate example_stale)
       = Inr [UnregisterPlatformAccessories
               [configure (vehicleAccessory ''uuid-1FTFW1EF'' \<lparr>vc_name = ''Truck'', vc_vin = ''1FTFW1EF''\<rparr>)]]"
  by (simp add: addVehicles_def removeVehicle_def example_stale_def example_config_def
      configure_def vehicleAccessory_def new_Accessory_def Let_def)


subsection \<open>The status-update pass\<close>

text \<open>
  Claim C1, as stated, fails. In a pass over a truck whose fetch fails and a car whose
  fetch succeeds, the truck's cached snapshot, LOCKED with remote start level 2 before, is
  gone afterwards, and the truck's projection is not skipped: its lock states go from 1 to
  0 and its switch from on to off. The car is updated from its fresh snapshot.
\<close>

theorem failed_fetch_clears_snapshot:
  "info (vehicles example_fleet ! 0)
     = Some \<lparr>lockStatus_value = ''LOCKED'', remoteStartStatus_value = Some 2\<rparr>
   \<and> example_status 0 = None
   \<and> info (vehicles (updateVehicles example_generate example_status [0, 1] example_fleet) ! 0) = None
   \<and> map lockMechanism (accessories example_fleet)
       = [Some \<lparr>LockCurrentState = VNum 1, LockTargetState = VNum 1\<rparr>,
          Some \<lparr>LockCurrentState = VNum 1, LockTargetState = VNum 1\<rparr>]
   \<and> map lockMechanism (accessories (updateVehicles example_generate example_status [0, 1] example_fleet))
       = [Some \<lparr>LockCurrentState = VNum 0, LockTargetState = VNum 0\<rparr>,
          Some \<lparr>LockCurrentState = VNum 1, LockTargetState = VNum 1\<rparr>]
   \<and> map switch (accessories example_fleet) = [Some \<lparr>On = VBool True\<rparr>, Some \<lparr>On = VBool False\<rparr>]
   \<and> map switch (accessories (updateVehicles example_generate example_status [0, 1] example_fleet))
       = [Some \<lparr>On = VBool False\<rparr>, Some \<lparr>On = VBool True\<rparr>]"
  by (simp add: updateVehicles_def updateVehicle_def example_fleet_def example_status_def
      example_generate_def configure_def vehicleAccessory_def new_Accessory_def
      updateCharacteristics_def lockNumber_def started_def engineStatus_def Let_def)


text \<open>
  Claim C1, amended. In a pass, for every handle whose callback goes on, whatever the order
  of the callbacks: the cached snapshot of the handle becomes the result of its fetch, so
  a failed fetch leaves no snapshot cached; and the projection is pushed in both cases. On
  the accessory found under the handle's identifier, a lock service that exists has both
  lock states set to 1 if the fetched lock state is LOCKED and to 0 otherwise, 0 also when
  the fetch failed, and a switch that exists is on exactly when the fetched remote start
  level is above 0, so off when the fetch failed or gave no level. The fetch meant here
  is that of the handle with this identifier that goes on last, the handle itself when no
  other has the identifier. A failed fetch of one handle does not keep the others from
  being updated, and the pass hands its caller a state and no error.
\<close>

theorem status_pass_stores_fetch_result:
  assumes "set order \<subseteq> {..<length (vehicles st)}" and "i \<in> set order"
  shows "info (vehicles (updateVehicles generate status order st) ! i) = status i
    \<and> Option.bind
         (find (\<lambda>x. UUID x = generate (vin (vehicles st ! i)))
            (accessories (updateVehicles generate status order st)))
         lockMechanism =
       map_option
         (\<lambda>l. case status (last_writer generate st order i) of
                 None \<Rightarrow> \<lparr>LockCurrentState = VNum 0, LockTargetState = VNum 0\<rparr>
               | Some s \<Rightarrow>
                   if lockStatus_value s = ''LOCKED''
                   then \<lparr>LockCurrentState = VNum 1, LockTargetState = VNum 1\<rparr>
                   else \<lparr>LockCurrentState = VNum 0, LockTargetState = VNum 0\<rparr>)
         (Option.bind
            (find (\<lambda>x. UUID x = generate (vin (vehicles st ! i))) (accessories st))
            lockMechanism)
    \<and> Option.bind
         (find (\<lambda>x. UUID x = generate (vin (vehicles st ! i)))
            (accessories (updateVehicles generate status order st)))
         switch =
       map_option
         (\<lambda>w. case status (last_writer generate st order i) of
                 None \<Rightarrow> \<lparr>On = VBool False\<rparr>
               | Some s \<Rightarrow>
                   (case remoteStartStatus_value s of
                      None \<Rightarrow> \<lparr>On = VBool False\<rparr>
                    | Some n \<Rightarrow> \<lparr>On = VBool (0 < n)\<rparr>))
         (Option.bind
            (find (\<lambda>x. UUID x = generate (vin (vehicles st ! i))) (accessories st))
            switch)
    \<and> updateVehicles_result generate status order st
        = Inr (updateVehicles generate status order st)"
proof -
  let ?k = "last_writer generate st order i"
  let ?u = "generate (vin (vehicles st ! i))"
  have "i < length (vehicles st)" using assms by auto
  then have cached: "info (vehicles (updateVehicles generate status order st) ! i) = status i"
    using assms(2) by (simp add: updateVehicles_info)
  have found: "find (\<lambda>x. UUID x = ?u) (accessories (updateVehicles generate status order st)) =
         map_option (updateCharacteristics (lockNumber (status ?k)) (started (status ?k)))
           (find (\<lambda>x. UUID x = ?u) (accessories st))"
    using assms by (rule updateVehicles_find_last)
  have lock: "Option.bind
         (find (\<lambda>x. UUID x = ?u) (accessories (updateVehicles generate status order st)))
         lockMechanism =
       map_option
         (\<lambda>l. case status ?k of
                 None \<Rightarrow> \<lparr>LockCurrentState = VNum 0, LockTargetState = VNum 0\<rparr>
               | Some s \<Rightarrow>
                   if lockStatus_value s = ''LOCKED''
                   then \<lparr>LockCurrentState = VNum 1, LockTargetState = VNum 1\<rparr>
                   else \<lparr>LockCurrentState = VNum 0, LockTargetState = VNum 0\<rparr>)
         (Option.bind (find (\<lambda>x. UUID x = ?u) (accessories st)) lockMechanism)"
    unfolding found
    by (cases "find (\<lambda>x. UUID x = ?u) (accessories st)")
       (auto simp add: updateCharacteristics_def lockNumber_def option.map_comp comp_def
          split: option.split intro!: option.map_cong)
  have sw: "Option.bind
         (find (\<lambda>x. UUID x = ?u) (accessories (updateVehicles generate status order st)))
         switch =
       map_option
         (\<lambda>w. case status ?k of
                 None \<Rightarrow> \<lparr>On = VBool False\<rparr>
               | Some s \<Rightarrow>
                   (case remoteStartStatus_value s of
                      None \<Rightarrow> \<lparr>On = VBool False\<rparr>
                    | Some n \<Rightarrow> \<lparr>On = VBool (0 < n)\<rparr>))
         (Option.bind (find (\<lambda>x. UUID x = ?u) (accessories st)) switch)"
    unfolding found
    by (cases "find (\<lambda>x. UUID x = ?u) (accessories st)")
       (auto simp add: updateCharacteristics_def started_def engineStatus_def option.map_comp
          comp_def split: option.split intro!: option.map_cong)
  have res: "updateVehicles_result generate status order st
        = Inr (updateVehicles generate status order st)"
    by (simp add: updateVehicles_result_def)
  from cached lock sw res show ?thesis by (intro conjI)
qed

theorem status_pass_stores_fetch_result_witness:
  "set [1, 0] \<subseteq> {..<length (vehicles example_fleet)}
   \<and> (0::nat) \<in> set [1, 0] \<and> (1::nat) \<in> set [1, 0]
   \<and> info (vehicles (updateVehicles example_generate example_status [1, 0] example_fleet) ! 0) = None
   \<and> Option.bind
        (find (\<lambda>x. UUID x = ''uuid-1FTFW1EF'')
           (accessories (updateVehicles example_generate example_status [1, 0] example_fleet)))
        lockMechanism = Some \<lparr>LockCurrentState = VNum 0, LockTargetState = VNum 0\<rparr>
   \<and> Option.bind
        (find (\<lambda>x. UUID x = ''uuid-1FTFW1EF'')
           (accessories (updateVehicles example_generate example_status [1, 0] example_fleet)))
        switch = Some \<lparr>On = VBool False\<rparr>
   \<and> info (vehicles (updateVehicles example_generate example_status [1, 0] example_fleet) ! 1)
       = Some \<lparr>lockStatus_value = ''LOCKED'', remoteStartStatus_value = Some 3\<rparr>
   \<and> Option.bind
        (find (\<lambda>x. UUID x = ''uuid-3FA6P0H7'')
           (accessories (updateVehicles example_generate example_status [1, 0] example_fleet)))
        lockMechanism = Some \<lparr>LockCurrentState = VNum 1, LockTargetState = VNum 1\<rparr>
   \<and> Option.bind
        (find (\<lambda>x. UUID x = ''uuid-3FA6P0H7'')
           (accessories (updateVehicles example_generate example_status [1, 0] example_fleet)))
        switch = Some \<lparr>On = VBool True\<rparr>
   \<and> updateVehicles_result example_generate example_status [1, 0] example_fleet
       = Inr (updateVehicles example_generate example_status [1, 0] example_fleet)"
proof -
  have h: "set [1, 0] \<subseteq> {..<length (vehicles example_fleet)}"
    by (simp add: example_fleet_def)
  have h0: "(0::nat) \<in> set [1, 0]" and h1: "(1::nat) \<in> set [1, 0]" by simp_all
  have before:
    "vin (vehicles example_fleet ! 0) = ''1FTFW1EF''"
    "vin (vehicles example_fleet ! 1) = ''3FA6P0H7''"
    "Option.bind (find (\<lambda>x. UUID x = ''uuid-1FTFW1EF'') (accessories example_fleet)) lockMechanism
       = Some \<lparr>LockCurrentState = VNum 1, LockTargetState = VNum 1\<rparr>"
    "Option.bind (find (\<lambda>x. UUID x = ''uuid-1FTFW1EF'') (accessories example_fleet)) switch
       = Some \<lparr>On = VBool True\<rparr>"
    "Option.bind (find (\<lambda>x. UUID x = ''uuid-3FA6P0H7'') (accessories example_fleet)) lockMechanism
       = Some \<lparr>LockCurrentState = VNum 1, LockTargetState = VNum 1\<rparr>"
    "Option.bind (find (\<lambda>x. UUID x = ''uuid-3FA6P0H7'') (accessories example_fleet)) switch
       = Some \<lparr>On = VBool False\<rparr>"
    by (simp_all add: example_fleet_def configure_def vehicleAccessory_def new_Accessory_def)
  have last:
    "last_writer example_generate example_fleet [1, 0] 0 = 0"
    "last_writer example_generate example_fleet [1, 0] 1 = 1"
    by (simp_all add: last_writer_def example_fleet_def example_generate_def)
  have fetched:
    "example_status 0 = None"
    "example_status 1 = Some \<lparr>lockStatus_value = ''LOCKED'', remoteStartStatus_value = Some 3\<rparr>"
    by (simp_all add: example_status_def)
  have g: "example_generate ''1FTFW1EF'' = ''uuid-1FTFW1EF''"
    "example_generate ''3FA6P0H7'' = ''uuid-3FA6P0H7''"
    by (simp_all add: example_generate_def)
  show ?thesis
    using h h0 h1
      status_pass_stores_fetch_result [OF h h0, of example_generate example_status]
      status_pass_stores_fetch_result [OF h h1, of example_generate example_status]
      before last fetched g
    by simp
qed

text \<open>
  Claim C9. In a pass, for every handle whose callback goes on and whose accessory is found
  and has a lock service: the callback sets the lock current state and the lock target
  state of that accessory to the same number, 1 if the lock state it has just cached is
  LOCKED and 0 otherwise; and after the whole pass, whatever the order of the callbacks,
  the two are the same number, 1 if the cached lock state is LOCKED and 0 otherwise, of the
  handle with that identifier that goes on last (the handle itself when no other has the
  identifier). What the lock target state was before does not matter, so a target that the
  user wrote is overwritten.
\<close>

theorem status_pass_sets_both_lock_states:
  assumes "set order \<subseteq> {..<length (vehicles st)}" and "i \<in> set order"
    and "find (\<lambda>x. UUID x = generate (vin (vehicles st ! i))) (accessories st) = Some a"
    and "lockMechanism a = Some l"
  shows "Option.bind
           (find (\<lambda>x. UUID x = generate (vin (vehicles st ! i)))
              (accessories (updateVehicle generate status i st)))
           lockMechanism =
         Some \<lparr>LockCurrentState =
                 VNum (if map_option lockStatus_value
                            (info (vehicles (updateVehicle generate status i st) ! i)) = Some ''LOCKED''
                       then 1 else 0),
               LockTargetState =
                 VNum (if map_option lockStatus_value
                            (info (vehicles (updateVehicle generate status i st) ! i)) = Some ''LOCKED''
                       then 1 else 0)\<rparr>
    \<and> Option.bind
           (find (\<lambda>x. UUID x = generate (vin (vehicles st ! i)))
              (accessories (updateVehicles generate status order st)))
           lockMechanism =
         Some \<lparr>LockCurrentState =
                 VNum (if map_option lockStatus_value
                            (info (vehicles (updateVehicles generate status order st)
                                     ! last_writer generate st order i)) = Some ''LOCKED''
                       then 1 else 0),
               LockTargetState =
                 VNum (if map_option lockStatus_value
                            (info (vehicles (updateVehicles generate status order st)
                                     ! last_writer generate st order i)) = Some ''LOCKED''
                       then 1 else 0)\<rparr>"
proof -
  let ?k = "last_writer generate st order i"
  have len: "i < length (vehicles st)" using assms(1,2) by auto
  have "info (vehicles (updateVehicle generate status i st) ! i) = status i"
    using len by (simp add: updateVehicle_vehicles)
  moreover have "find (\<lambda>x. UUID x = generate (vin (vehicles st ! i)))
           (accessories (updateVehicle generate status i st)) =
         Some (updateCharacteristics (lockNumber (status i)) (started (status i)) a)"
    using len assms(3) by (simp add: updateVehicle_find)
  ultimately have step: "Option.bind
           (find (\<lambda>x. UUID x = generate (vin (vehicles st ! i)))
              (accessories (updateVehicle generate status i st)))
           lockMechanism =
         Some \<lparr>LockCurrentState =
                 VNum (if map_option lockStatus_value
                            (info (vehicles (updateVehicle generate status i st) ! i)) = Some ''LOCKED''
                       then 1 else 0),
               LockTargetState =
                 VNum (if map_option lockStatus_value
                            (info (vehicles (updateVehicle generate status i st) ! i)) = Some ''LOCKED''
                       then 1 else 0)\<rparr>"
    using assms(4) by (simp add: updateCharacteristics_def lockNumber_def)
  have k: "?k \<in> set order" using assms(2) by (rule last_writer_in_order)
  then have "?k < length (vehicles st)" using assms(1) by auto
  then have i: "info (vehicles (updateVehicles generate status order st) ! ?k) = status ?k"
    using k by (simp add: updateVehicles_info)
  have "find (\<lambda>x. UUID x = generate (vin (vehicles st ! i)))
           (accessories (updateVehicles generate status order st)) =
         Some (updateCharacteristics (lockNumber (status ?k)) (started (status ?k)) a)"
    using updateVehicles_find_last [OF assms(1,2), where generate = generate and status = status]
      assms(3) by simp
  then have pass: "Option.bind
           (find (\<lambda>x. UUID x = generate (vin (vehicles st ! i)))
              (accessories (updateVehicles generate status order st)))
           lockMechanism =
         Some \<lparr>LockCurrentState =
                 VNum (if map_option lockStatus_value
                            (info (vehicles (updateVehicles generate status order st) ! ?k)) = Some ''LOCKED''
                       then 1 else 0),
               LockTargetState =
                 VNum (if map_option lockStatus_value
                            (info (vehicles (updateVehicles generate status order st) ! ?k)) = Some ''LOCKED''
                       then 1 else 0)\<rparr>"
    using assms(4) by (simp add: i updateCharacteristics_def lockNumber_def)
  from step pass show ?thesis by (rule conjI)
qed

theorem status_pass_sets_both_lock_states_witness:
  "set [1, 0] \<subseteq> {..<length (vehicles example_fleet)}
   \<and> (0::nat) \<in> set [1, 0]
   \<and> find (\<lambda>x. UUID x = example_generate (vin (vehicles example_fleet ! 0))) (accessories example_fleet)
       = Some ((configure (vehicleAccessory ''uuid-1FTFW1EF'' \<lparr>vc_name = ''Truck'', vc_vin = ''1FTFW1EF''\<rparr>))
                 \<lparr>switch := Some \<lparr>On = VBool True\<rparr>\<rparr>)
   \<and> lockMechanism ((configure (vehicleAccessory ''uuid-1FTFW1EF'' \<lparr>vc_name = ''Truck'', vc_vin = ''1FTFW1EF''\<rparr>))
                 \<lparr>switch := Some \<lparr>On = VBool True\<rparr>\<rparr>)
       = Some \<lparr>LockCurrentState = VNum 1, LockTargetState = VNum 1\<rparr>
   \<and> Option.bind
         (find (\<lambda>x. UUID x = example_generate (vin (vehicles example_fleet ! 0)))
            (accessories (updateVehicle example_generate example_status 0 example_fleet)))
         lockMechanism =
       Some \<lparr>LockCurrentState = VNum 0, LockTargetState = VNum 0\<rparr>
   \<and> Option.bind
         (find (\<lambda>x. UUID x = example_generate (vin (vehicles example_fleet ! 0)))
            (accessories (updateVehicles example_generate example_status [1, 0] example_fleet)))
         lockMechanism =
       Some \<lparr>LockCurrentState = VNum 0, LockTargetState = VNum 0\<rparr>"
proof -
  have h1: "set [1, 0] \<subseteq> {..<length (vehicles example_fleet)}"
    by (simp add: example_fleet_def)
  have h2: "(0::nat) \<in> set [1, 0]" by simp
  have h3: "find (\<lambda>x. UUID x = example_generate (vin (vehicles example_fleet ! 0))) (accessories example_fleet)
       = Some ((configure (vehicleAccessory ''uuid-1FTFW1EF'' \<lparr>vc_name = ''Truck'', vc_vin = ''1FTFW1EF''\<rparr>))
                 \<lparr>switch := Some \<lparr>On = VBool True\<rparr>\<rparr>)"
    by (simp add: example_fleet_def example_generate_def configure_def vehicleAccessory_def
        new_Accessory_def)
  have h4: "lockMechanism ((configure (vehicleAccessory ''uuid-1FTFW1EF'' \<lparr>vc_name = ''Truck'', vc_vin = ''1FTFW1EF''\<rparr>))
                 \<lparr>switch := Some \<lparr>On = VBool True\<rparr>\<rparr>)
       = Some \<lparr>LockCurrentState = VNum 1, LockTargetState = VNum 1\<rparr>"
    by (simp add: configure_def)
  have k: "last_writer example_generate example_fleet [1, 0] 0 = 0"
    by (simp add: last_writer_def example_fleet_def example_generate_def)
  have len: "0 < length (vehicles example_fleet)" by (simp add: example_fleet_def)
  have c1: "info (vehicles (updateVehicle example_generate example_status 0 example_fleet) ! 0) = None"
    using len by (simp add: updateVehicle_vehicles example_status_def)
  have c2: "info (vehicles (updateVehicles example_generate example_status [1, 0] example_fleet) ! 0) = None"
    using len by (simp add: updateVehicles_info example_status_def)
  show ?thesis
    using h1 h2 h3 h4 k c1 c2
      status_pass_sets_both_lock_states [where generate = example_generate and st = example_fleet
        and order = "[1, 0]" and i = 0 and status = example_status, OF h1 h2 h3 h4]
    by simp
qed

subsection \<open>The configuration check\<close>

text \<open>
  Claim C8. A configuration without user name, password or vehicles list makes the
  constructor log one error and do nothing else: it makes no call on the host, so it does
  not register for the launch event, and the launch event then leaves the platform as it
  is: no accessory is registered and no interval timer is started.
\<close>

theorem missing_config_no_action:
  assumes "username c = None \<or> password c = None \<or> config_vehicles c = None"
  shows "log (constructor (Some c)) = [(ERROR, ''Please add a userame, password, and vehicles to your config.json'')]
    \<and> api_calls (constructor (Some c)) = []
    \<and> accessories (constructor (Some c)) = []
    \<and> timers (constructor (Some c)) = []
    \<and> emit_DID_FINISH_LAUNCHING connected generate status order (constructor (Some c)) = Inr (constructor (Some c))"
  using assms by (auto simp add: constructor_def falsy_string_def emit_DID_FINISH_LAUNCHING_def Let_def)


theorem missing_config_no_action_witness:
  "config_vehicles (example_config\<lparr>config_vehicles := None\<rparr>) = None
   \<and> log (constructor (Some (example_config\<lparr>config_vehicles := None\<rparr>)))
       = [(ERROR, ''Please add a userame, password, and vehicles to your config.json'')]
   \<and> timers (constructor (Some (example_config\<lparr>config_vehicles := None\<rparr>))) = []
   \<and> emit_DID_FINISH_LAUNCHING True example_generate Map.empty [] (constructor (Some (example_config\<lparr>config_vehicles := None\<rparr>)))
       = Inr (constructor (Some (example_config\<lparr>config_vehicles := None\<rparr>)))"
  using missing_config_no_action [of "example_config\<lparr>config_vehicles := None\<rparr>" True example_generate Map.empty "[]"]
  by simp

subsection \<open>Writes\<close>




text \<open>
  Claim C4, as stated, fails: a lock write whose command fails is acknowledged without an
  error and moves the lock current state from 1 to the written 0, and a switch write whose
  command fails is acknowledged without an error.
\<close>

theorem failed_command_acknowledged:
  "snd (lockTargetState_set command_fails Map.empty (VNum 0) example_binding) = None
   \<and> LockCurrentState (lockService example_binding) = VNum 1
   \<and> LockCurrentState (lockService (fst (lockTargetState_set command_fails Map.empty (VNum 0) example_binding)))
       = VNum 0
   \<and> snd (on_set command_fails (VBool True) example_binding) = None"
  by (simp add: lockTargetState_set_def validateUserInput_def on_set_def issueCommand_def
      example_binding_def Let_def)

text \<open>
  Claim C4, amended. The listeners do not look at the outcome of the command: every lock
  write and every switch write is acknowledged without an error, whether the command
  succeeded or failed; what a write leaves behind is the same for every outcome of the
  command; and after a lock write of 0 or of 1 the lock current state is the written value.
\<close>

theorem write_ignores_command_outcome:
  "snd (lockTargetState_set outcome parseInt v b) = None
   \<and> snd (on_set outcome v b) = None
   \<and> lockTargetState_set outcome parseInt v b = lockTargetState_set outcome' parseInt v b
   \<and> on_set outcome v b = on_set outcome' v b
   \<and> LockCurrentState (lockService (fst (lockTargetState_set outcome parseInt (VNum 0) b))) = VNum 0
   \<and> LockCurrentState (lockService (fst (lockTargetState_set outcome parseInt (VNum 1) b))) = VNum 1"
  by (simp add: lockTargetState_set_def validateUserInput_def on_set_def issueCommand_def Let_def)

theorem write_ignores_command_outcome_witness:
  "snd (lockTargetState_set command_fails Map.empty (VNum 1) example_binding) = None
   \<and> snd (on_set command_fails (VNum 1) example_binding) = None
   \<and> lockTargetState_set command_fails Map.empty (VNum 1) example_binding
       = lockTargetState_set command_succeeds Map.empty (VNum 1) example_binding
   \<and> on_set command_fails (VNum 1) example_binding = on_set command_succeeds (VNum 1) example_binding
   \<and> LockCurrentState (lockService (fst (lockTargetState_set command_fails Map.empty (VNum 1) example_binding)))
       = VNum 1"
  using write_ignores_command_outcome [of command_fails Map.empty "VNum 1" example_binding command_succeeds]
  by blast

subsection \<open>Reads\<close>

text \<open>
  Claim C3 fails on the code: the switch read looks at the snapshot cached in the handle,
  not at the one it has just fetched. With a handle that has no cached snapshot and a fresh
  snapshot whose remote start level is 3, the read answers false.
\<close>

theorem switch_read_uses_cached_snapshot:
  "snd (handleGetRequest Characteristic_On
     (Some \<lparr>lockStatus_value = ''LOCKED'', remoteStartStatus_value = Some 3\<rparr>) example_binding)
   = Inr (VBool False)"
  by (simp add: handleGetRequest_def on_get_def engineStatus_def example_binding_def Let_def)

text \<open>
  Claim C7, as stated, fails: the lock current state has no GET listener, so a read of it
  answers the stored value, here 0, although the snapshot that a fetch would give is LOCKED.
\<close>

theorem lock_current_state_read_not_live:
  "handleGetRequest Characteristic_LockCurrentState
     (Some \<lparr>lockStatus_value = ''LOCKED'', remoteStartStatus_value = None\<rparr>)
     (example_binding\<lparr>lockService := \<lparr>LockCurrentState = VNum 0, LockTargetState = VNum 1\<rparr>\<rparr>)
   = (example_binding\<lparr>lockService := \<lparr>LockCurrentState = VNum 0, LockTargetState = VNum 1\<rparr>\<rparr>,
      Inr (VNum 0))"
  by (simp add: handleGetRequest_def stored_value_def example_binding_def)

text \<open>
  Claim C7, amended. The listener is on the lock target state. Every read of the lock
  target state fetches a snapshot; when the fetch fails it answers an error and the lock
  current state stays; when it succeeds, the result is 1 for the lock state LOCKED and 0
  for any other, it is stored in the lock current state, and it is the answer.
\<close>

theorem lock_target_state_read:
  "snd (handleGetRequest Characteristic_LockTargetState status b) =
     (case status of None \<Rightarrow> Inl Error
      | Some s \<Rightarrow> Inr (VNum (if lockStatus_value s = ''LOCKED'' then 1 else 0)))
   \<and> LockCurrentState (lockService (fst (handleGetRequest Characteristic_LockTargetState status b))) =
     (case status of None \<Rightarrow> LockCurrentState (lockService b)
      | Some s \<Rightarrow> VNum (if lockStatus_value s = ''LOCKED'' then 1 else 0))
   \<and> handleGetRequest Characteristic_LockCurrentState status b
       = (b, Inr (LockCurrentState (lockService b)))"
  by (simp add: handleGetRequest_def lockTargetState_get_def stored_value_def Let_def
      split: option.split)

theorem lock_target_state_read_witness:
  "snd (handleGetRequest Characteristic_LockTargetState
          (Some \<lparr>lockStatus_value = ''UNLOCKED'', remoteStartStatus_value = None\<rparr>) example_binding)
     = Inr (VNum 0)
   \<and> LockCurrentState (lockService (fst (handleGetRequest Characteristic_LockTargetState
          (Some \<lparr>lockStatus_value = ''UNLOCKED'', remoteStartStatus_value = None\<rparr>) example_binding)))
     = VNum 0
   \<and> snd (handleGetRequest Characteristic_LockTargetState None example_binding) = Inl Error"
  using lock_target_state_read [of "Some \<lparr>lockStatus_value = ''UNLOCKED'', remoteStartStatus_value = None\<rparr>" example_binding]
    lock_target_state_read [of None example_binding]
  by simp

end
